theory Spec2Isabelle
  imports Main
begin

section \<open>JavaScript values that cross the API boundary\<close>

text \<open>
  A response body, the login credentials and every value a test reads from a response
  are JSON values. An object is an association list of its own properties in insertion
  order; strings are byte strings (UTF-8). Numbers are never inspected by the code
  under study beyond their type, so integers stand for them.
\<close>

datatype json =
    JNull
  | JBool bool
  | JNumber int
  | JString string
  | JArray "json list"
  | JObject "(string \<times> json) list"

text \<open>
  \<^verbatim>\<open>testData/loginUser.json\<close>, as the Readme prints it:
  \<^verbatim>\<open>{ "username": "emilys", "password": "emilyspass" }\<close>.
\<close>

definition loginData :: json where
  "loginData = JObject [(''username'', JString ''emilys''), (''password'', JString ''emilyspass'')]"


section \<open>Request descriptors\<close>

datatype verb = GET | POST | PUT | PATCH | DELETE

text \<open>
  A query parameter value is a scalar. \<open>String(v)\<close> prints an integer of magnitude below
  \<open>10^21\<close> in plain decimal, which is the range modelled here.
\<close>

datatype scalar = SString string | SNumber int | SBoolean bool

type_synonym headers = "string \<rightharpoonup> string"
type_synonym query_params = "(string \<times> scalar) list"

record request =
  http_method :: verb
  url :: string
  hdrs :: headers
  body :: "json option"


subsection \<open>Printing scalars\<close>

definition digit_char :: "nat \<Rightarrow> char" where
  "digit_char d = ''0123456789'' ! d"

function show_nat :: "nat \<Rightarrow> string" where
  "show_nat n = (if n < 10 then [digit_char n] else show_nat (n div 10) @ [digit_char (n mod 10)])"
  by pat_completeness auto
termination
  by (relation "measure id") auto

declare show_nat.simps [simp del]

definition show_int :: "int \<Rightarrow> string" where
  "show_int i = (if i < 0 then CHR ''-'' # show_nat (nat (- i)) else show_nat (nat i))"

fun scalar_to_string :: "scalar \<Rightarrow> string" where
  "scalar_to_string (SString s) = s"
| "scalar_to_string (SNumber i) = show_int i"
| "scalar_to_string (SBoolean b) = (if b then ''true'' else ''false'')"


subsection \<open>\<open>encodeURIComponent\<close>\<close>

text \<open>
  The built-in leaves \<open>A-Z a-z 0-9 - _ . ! ~ * ' ( )\<close> alone and writes every other byte
  of the UTF-8 encoding as \<open>%XX\<close> with upper-case hexadecimal digits.
\<close>

definition uri_unreserved :: "char \<Rightarrow> bool" where
  "uri_unreserved c \<longleftrightarrow>
     c \<in> set (''ABCDEFGHIJKLMNOPQRSTUVWXYZabcdefghijklmnopqrstuvwxyz0123456789-_.!~*()'' @ [CHR 0x27])"

definition hex_digit :: "nat \<Rightarrow> char" where
  "hex_digit d = ''0123456789ABCDEF'' ! d"

definition percent_encode :: "char \<Rightarrow> string" where
  "percent_encode c =
     [CHR ''%'', hex_digit ((of_char c :: nat) div 16), hex_digit ((of_char c :: nat) mod 16)]"

definition encodeURIComponent :: "string \<Rightarrow> string" where
  "encodeURIComponent s = concat (map (\<lambda>c. if uri_unreserved c then [c] else percent_encode c) s)"


subsection \<open>The request the client builds\<close>

fun join_with :: "string \<Rightarrow> string list \<Rightarrow> string" where
  "join_with sep [] = []"
| "join_with sep [x] = x"
| "join_with sep (x # y # ys) = x @ sep @ join_with sep (y # ys)"

text \<open>
  Modelled from the spec: \<^verbatim>\<open>helpers/api-helper.ts\<close> (class \<open>ApiHelper\<close>) is not among the
  sources. Section 4.1: each query entry is appended as \<open>key=encodeURIComponent(value)\<close>,
  insertion order defines the order of the query string, and the final URL is the given
  one followed by a \<open>?\<close>-prefixed, \<open>&\<close>-joined query string when queryParams is
  non-empty.
\<close>

definition query_entry :: "string \<times> scalar \<Rightarrow> string" where
  "query_entry kv = fst kv @ ''='' @ encodeURIComponent (scalar_to_string (snd kv))"

text \<open>Modelled from the spec: the entries joined by \<open>&\<close>, in insertion order.\<close>

definition query_string :: "query_params \<Rightarrow> string" where
  "query_string qp = join_with ''&'' (map query_entry qp)"

text \<open>
  Modelled from the spec: the URL as given when queryParams is absent or empty, else
  followed by \<open>?\<close> and the query string.
\<close>

definition build_url :: "string \<Rightarrow> query_params option \<Rightarrow> string" where
  "build_url u queryParams =
     (case queryParams of
        None \<Rightarrow> u
      | Some qp \<Rightarrow> (if qp = [] then u else u @ ''?'' @ query_string qp))"

text \<open>
  Modelled from the spec: the body handling of the absent \<open>ApiHelper\<close>. Section 4.1:
  the body is ignored for GET and optional for the other verbs.
\<close>

definition effective_body :: "verb \<Rightarrow> json option \<Rightarrow> json option" where
  "effective_body v b = (if v = GET then None else b)"

text \<open>Modelled from the spec: the default header of a call that carries a body.\<close>

definition default_headers :: headers where
  "default_headers = [''Content-Type'' \<mapsto> ''application/json'']"

text \<open>
  Modelled from the spec: the header handling of the absent \<open>ApiHelper\<close>. Section 4.1:
  the caller's headers are merged with the default \<open>Content-Type: application/json\<close>
  when a body is present, the caller's entry winning where both have the key.
\<close>

definition effective_headers :: "headers option \<Rightarrow> json option \<Rightarrow> headers" where
  "effective_headers callerHeaders b =
     (let given = (case callerHeaders of None \<Rightarrow> Map.empty | Some h \<Rightarrow> h)
      in case b of None \<Rightarrow> given | Some _ \<Rightarrow> default_headers ++ given)"

text \<open>
  Modelled from the spec: the request descriptor of section 3 that a call of the absent
  \<open>ApiHelper\<close> puts on the wire.
\<close>

definition build_request ::
  "verb \<Rightarrow> string \<Rightarrow> headers option \<Rightarrow> json option \<Rightarrow> query_params option \<Rightarrow> request" where
  "build_request v u callerHeaders b queryParams =
     \<lparr> http_method = v,
       url = build_url u queryParams,
       hdrs = effective_headers callerHeaders (effective_body v b),
       body = effective_body v b \<rparr>"


section \<open>Transport and responses\<close>

datatype fault = DnsFailure | Timeout | ConnectionReset

text \<open>
  What a call can throw: the transport's failure, or the \<open>TypeError\<close> JavaScript raises
  when a property of \<open>null\<close> is read.
\<close>

datatype error = TransportError fault | TypeError

text \<open>
  An HTTP reply as the transport hands it over: the status code, the body text and what
  JSON deserialisation makes of the body (\<open>None\<close> when the body is not JSON).
\<close>

record http_reply =
  reply_status :: nat
  reply_text :: string
  reply_json :: "json option"

datatype transport_outcome = Fault fault | Reply http_reply

text \<open>
  The remote side: the outcome of the \<open>n\<close>-th request sent (counted from 0) as a
  function of the request.
\<close>

type_synonym network = "nat \<Rightarrow> request \<Rightarrow> transport_outcome"

text \<open>
  Modelled from the spec: the value a call of the absent \<open>ApiHelper\<close> returns. Section
  3: the response payload is the deserialised JSON body, or the raw response metadata
  (status, text) when deserialisation is not applicable.
\<close>

datatype response_value = Payload json | RawResponse nat string

text \<open>
  Modelled from the spec: the result of a call of the absent \<open>ApiHelper\<close>. Section 4.1:
  the parsed JSON body is returned, or the raw response object when the body is not
  JSON-parseable; a 404 or any other non-2xx status is not treated as a failure.
\<close>

definition deliver :: "http_reply \<Rightarrow> response_value" where
  "deliver r =
     (case reply_json r of
        Some j \<Rightarrow> Payload j
      | None \<Rightarrow> RawResponse (reply_status r) (reply_text r))"

text \<open>
  Reading the property \<open>k\<close> of a returned value, \<open>response.k\<close>: a \<open>TypeError\<close> on
  \<open>null\<close>, the property's value on an object that has it, and \<open>undefined\<close> (\<open>None\<close>)
  otherwise. The built-in properties of strings and arrays (\<open>length\<close>, indices) are not
  modelled; none of them is read by the code under study.
\<close>

fun get_prop :: "response_value \<Rightarrow> string \<Rightarrow> error + json option" where
  "get_prop (Payload JNull) k = Inl TypeError"
| "get_prop (Payload (JObject kvs)) k = Inr (map_of kvs k)"
| "get_prop (Payload _) k = Inr None"
| "get_prop (RawResponse st txt) k =
     Inr (if k = ''status'' then Some (JNumber (int st))
          else if k = ''text'' then Some (JString txt)
          else None)"


section \<open>The world a test runs in\<close>

datatype consumer_outcome = Passed | AssertionFailed | UnexpectedFault

text \<open>
  Client instances are numbered in the order \<open>new ApiHelper()\<close> creates them. The log
  records, in order, each construction, each request sent (with the instance that sent
  it), the end of a test body and the moment control reaches the end of a fixture
  function, after \<open>use\<close> has resolved.
\<close>

datatype event =
    Constructed nat
  | Sent nat request
  | ConsumerFinished consumer_outcome
  | Teardown

record world =
  next_id :: nat
  log :: "event list"

fun is_Sent :: "event \<Rightarrow> bool" where
  "is_Sent (Sent h r) = True"
| "is_Sent _ = False"

definition calls_made :: "world \<Rightarrow> nat" where
  "calls_made w = length (filter is_Sent (log w))"

definition emit :: "event \<Rightarrow> world \<Rightarrow> world" where
  "emit e w = w\<lparr>log := log w @ [e]\<rparr>"

text \<open>
  Modelled from the spec: \<open>new ApiHelper()\<close>, the constructor of the absent class. It
  yields a fresh instance and does nothing else (section 4.2: "instantiate one fresh
  RequestClient"; section 4.1: the client keeps no state between calls).
\<close>

definition new_ApiHelper :: "world \<Rightarrow> nat \<times> world" where
  "new_ApiHelper w = (next_id w, emit (Constructed (next_id w)) (w\<lparr>next_id := Suc (next_id w)\<rparr>))"

text \<open>
  Modelled from the spec: what the five operations of the absent \<open>ApiHelper\<close> share.
  Section 4.1: one request per call, no retry; a transport-level failure is thrown to
  the caller, every HTTP reply is returned. The operations below take their arguments
  in the order of the Readme: \<open>getRequest(url, headers, queryParams)\<close>,
  \<open>postRequest(url, headers, body, queryParams)\<close>, and likewise for PUT, PATCH and
  DELETE.
\<close>

definition send ::
  "network \<Rightarrow> nat \<Rightarrow> verb \<Rightarrow> string \<Rightarrow> headers option \<Rightarrow> json option \<Rightarrow> query_params option
     \<Rightarrow> world \<Rightarrow> (error + response_value) \<times> world" where
  "send net h v u callerHeaders b queryParams w =
     (let req = build_request v u callerHeaders b queryParams
      in (case net (calls_made w) req of
            Fault f \<Rightarrow> Inl (TransportError f)
          | Reply r \<Rightarrow> Inr (deliver r),
          emit (Sent h req) w))"


text \<open>Modelled from the spec: the POST operation of the absent \<open>ApiHelper\<close>.\<close>

definition postRequest ::
  "network \<Rightarrow> nat \<Rightarrow> string \<Rightarrow> headers option \<Rightarrow> json option \<Rightarrow> query_params option
     \<Rightarrow> world \<Rightarrow> (error + response_value) \<times> world" where
  "postRequest net h u callerHeaders b queryParams = send net h POST u callerHeaders b queryParams"

text \<open>Modelled from the spec: the PUT operation of the absent \<open>ApiHelper\<close>.\<close>

definition putRequest ::
  "network \<Rightarrow> nat \<Rightarrow> string \<Rightarrow> headers option \<Rightarrow> json option \<Rightarrow> query_params option
     \<Rightarrow> world \<Rightarrow> (error + response_value) \<times> world" where
  "putRequest net h u callerHeaders b queryParams = send net h PUT u callerHeaders b queryParams"

text \<open>Modelled from the spec: the PATCH operation of the absent \<open>ApiHelper\<close>.\<close>

definition patchRequest ::
  "network \<Rightarrow> nat \<Rightarrow> string \<Rightarrow> headers option \<Rightarrow> json option \<Rightarrow> query_params option
     \<Rightarrow> world \<Rightarrow> (error + response_value) \<times> world" where
  "patchRequest net h u callerHeaders b queryParams = send net h PATCH u callerHeaders b queryParams"

text \<open>Modelled from the spec: the DELETE operation of the absent \<open>ApiHelper\<close>.\<close>

definition deleteRequest ::
  "network \<Rightarrow> nat \<Rightarrow> string \<Rightarrow> headers option \<Rightarrow> json option \<Rightarrow> query_params option
     \<Rightarrow> world \<Rightarrow> (error + response_value) \<times> world" where
  "deleteRequest net h u callerHeaders b queryParams = send net h DELETE u callerHeaders b queryParams"


section \<open>Test bodies and the runner's \<open>use\<close>\<close>

text \<open>
  A test body acts on the world only through the client: it sends requests, may create
  further clients, and ends passed, with a failed assertion or with an uncaught fault.
  It can call only through an instance that exists; a body naming any other number is
  not a program, and is given the outcome of an uncaught fault.
\<close>

datatype test_body =
    Finish consumer_outcome
  | Call nat verb string "headers option" "json option" "query_params option"
      "error + response_value \<Rightarrow> test_body"
  | NewHelper "nat \<Rightarrow> test_body"

primrec run_test :: "network \<Rightarrow> test_body \<Rightarrow> world \<Rightarrow> consumer_outcome \<times> world" where
  "run_test net (Finish out) = (\<lambda>w. (out, w))"
| "run_test net (Call h v u callerHeaders b queryParams k) =
     (\<lambda>w. if h < next_id w
          then (case send net h v u callerHeaders b queryParams w of
                  (r, w') \<Rightarrow> run_test net (k r) w')
          else (UnexpectedFault, w))"
| "run_test net (NewHelper k) =
     (\<lambda>w. case new_ApiHelper w of (h, w') \<Rightarrow> run_test net (k h) w')"

text \<open>
  The \<open>use\<close> callback the test runner passes to a fixture: it hands the fixture's value
  to the test body and resolves when the body has finished, whatever its outcome. The
  runner records a failing body as the test's result; the promise \<open>use\<close> returns is not
  rejected by it. (\<^verbatim>\<open>fixtures.md\<close>: "await use(apiHelper); // Give it to test" and
  "Test finishes. Fixture cleanup runs automatically".)
\<close>

definition runner_use :: "network \<Rightarrow> ('a \<Rightarrow> test_body) \<Rightarrow> 'a \<Rightarrow> world \<Rightarrow> consumer_outcome \<times> world" where
  "runner_use net test_fn v w =
     (case run_test net (test_fn v) w of (out, w') \<Rightarrow> (out, emit (ConsumerFinished out) w'))"


section \<open>The fixtures of \<^verbatim>\<open>fixtures/api-fixture.ts\<close>\<close>

datatype 'r fixture_result = SetupFailed error | Completed 'r

record auth_ctx =
  helper :: nat
  accessToken :: "json option"
  refreshToken :: "json option"
  response :: response_value

definition login_url :: string where
  "login_url = ''https://dummyjson.com/auth/login''"

text \<open>
  \<^verbatim>\<open>
  apiHelper: async ({}, use) => {
    const apiHelper = new ApiHelper();
    await use(apiHelper);
  },
  \<close>
\<close>

definition apiHelper :: "(nat \<Rightarrow> world \<Rightarrow> 'r \<times> world) \<Rightarrow> world \<Rightarrow> 'r fixture_result \<times> world" where
  "apiHelper use w0 =
     (case new_ApiHelper w0 of (h, w1) \<Rightarrow>
        (case use h w1 of (out, w2) \<Rightarrow> (Completed out, emit Teardown w2)))"

text \<open>
  \<^verbatim>\<open>
  authenticatedApiHelper: async ({}, use) => {
    const apiHelper = new ApiHelper();
    const response = await apiHelper.postRequest(
      "https://dummyjson.com/auth/login",
      { "Content-Type": "application/json" },
      loginData
    );
    await use({
      helper: apiHelper,
      accessToken: response.accessToken,
      refreshToken: response.refreshToken,
      response: response,
    });
  },
  \<close>
  A throw before \<open>use\<close> is called ends the function: \<open>use\<close> is never called and nothing
  after it runs.
\<close>

definition authenticatedApiHelper ::
  "network \<Rightarrow> (auth_ctx \<Rightarrow> world \<Rightarrow> 'r \<times> world) \<Rightarrow> world \<Rightarrow> 'r fixture_result \<times> world" where
  "authenticatedApiHelper net use w0 =
     (case new_ApiHelper w0 of (h, w1) \<Rightarrow>
        (case postRequest net h login_url (Some [''Content-Type'' \<mapsto> ''application/json''])
                (Some loginData) None w1 of
           (Inl e, w2) \<Rightarrow> (SetupFailed e, w2)
         | (Inr resp, w2) \<Rightarrow>
             (case get_prop resp ''accessToken'' of
                Inl e \<Rightarrow> (SetupFailed e, w2)
              | Inr at \<Rightarrow>
                  (case get_prop resp ''refreshToken'' of
                     Inl e \<Rightarrow> (SetupFailed e, w2)
                   | Inr rt \<Rightarrow>
                       (case use \<lparr> helper = h, accessToken = at, refreshToken = rt,
                                   response = resp \<rparr> w2 of
                          (out, w3) \<Rightarrow> (Completed out, emit Teardown w3))))))"


section \<open>The login schema of \<^verbatim>\<open>schemas/schema.ts\<close>\<close>

text \<open>
  The field validators the schema uses: \<open>z.string()\<close>, \<open>z.number()\<close>,
  \<open>z.string().email()\<close>, \<open>z.string().url()\<close> and \<open>z.enum([...])\<close>.
\<close>

datatype zod_type = ZString | ZNumber | ZStringEmail | ZStringUrl | ZEnum "string list"

type_synonym zod_shape = "(string \<times> zod_type) list"

text \<open>
  \<^verbatim>\<open>
  export const LOGIN_API_SCHEMA = z
    .object({
      accessToken: z.string(),
      refreshToken: z.string(),
      id: z.number(),
      username: z.string(),
      email: z.string().email(),
      firstName: z.string(),
      lastName: z.string(),
      gender: z.enum(["male", "female"]),
      image: z.string().url(),
    })
    .strict();
  \<close>
\<close>

definition LOGIN_API_SCHEMA :: zod_shape where
  "LOGIN_API_SCHEMA =
     [(''accessToken'', ZString),
      (''refreshToken'', ZString),
      (''id'', ZNumber),
      (''username'', ZString),
      (''email'', ZStringEmail),
      (''firstName'', ZString),
      (''lastName'', ZString),
      (''gender'', ZEnum [''male'', ''female'']),
      (''image'', ZStringUrl)]"

text \<open>
  The kinds of issue a failed parse reports: a value of the wrong type (an absent field
  among them), a string of the wrong format, a string outside the enumeration, each with
  the path of the field it is about, and the keys the shape does not declare.
\<close>

datatype zod_issue =
    InvalidType "string list"
  | InvalidFormat "string list"
  | InvalidOption "string list"
  | UnrecognizedKeys "string list"

text \<open>
  One field against its validator, as the validation library does it: the type of the
  value is checked first (an absent field has type \<open>undefined\<close>), then the format or the
  membership. The library's e-mail and URL tests are parameters \<open>em\<close> and \<open>ur\<close>.
\<close>

fun parse_field ::
  "(string \<Rightarrow> bool) \<Rightarrow> (string \<Rightarrow> bool) \<Rightarrow> zod_type \<Rightarrow> string \<Rightarrow> json option \<Rightarrow> zod_issue list" where
  "parse_field em ur ZString k (Some (JString s)) = []"
| "parse_field em ur ZString k _ = [InvalidType [k]]"
| "parse_field em ur ZNumber k (Some (JNumber n)) = []"
| "parse_field em ur ZNumber k _ = [InvalidType [k]]"
| "parse_field em ur ZStringEmail k (Some (JString s)) = (if em s then [] else [InvalidFormat [k]])"
| "parse_field em ur ZStringEmail k _ = [InvalidType [k]]"
| "parse_field em ur ZStringUrl k (Some (JString s)) = (if ur s then [] else [InvalidFormat [k]])"
| "parse_field em ur ZStringUrl k _ = [InvalidType [k]]"
| "parse_field em ur (ZEnum vs) k (Some (JString s)) =
     (if s \<in> set vs then [] else [InvalidOption [k]])"
| "parse_field em ur (ZEnum vs) k _ = [InvalidType [k]]"

definition field_issues ::
  "(string \<Rightarrow> bool) \<Rightarrow> (string \<Rightarrow> bool) \<Rightarrow> zod_shape \<Rightarrow> (string \<times> json) list \<Rightarrow> zod_issue list" where
  "field_issues em ur shape kvs =
     concat (map (\<lambda>(k, t). parse_field em ur t k (map_of kvs k)) shape)"

definition extra_keys :: "zod_shape \<Rightarrow> (string \<times> json) list \<Rightarrow> string list" where
  "extra_keys shape kvs = filter (\<lambda>k. k \<notin> set (map fst shape)) (map fst kvs)"

text \<open>
  \<open>z.object(shape).strict().parse(v)\<close>: a value that is not an object is of the wrong
  type; otherwise every declared field is parsed, the keys outside the shape are
  collected, and the parse throws the issues found (\<open>Inl\<close>) or returns the object of
  the declared fields.
\<close>

definition parse_strict ::
  "(string \<Rightarrow> bool) \<Rightarrow> (string \<Rightarrow> bool) \<Rightarrow> zod_shape \<Rightarrow> json \<Rightarrow> zod_issue list + json" where
  "parse_strict em ur shape v =
     (case v of
        JObject kvs \<Rightarrow>
          (let issues = field_issues em ur shape kvs
                 @ (if extra_keys shape kvs = [] then [] else [UnrecognizedKeys (extra_keys shape kvs)])
           in if issues = []
              then Inr (JObject (List.map_filter
                                   (\<lambda>(k, t). map_option (Pair k) (map_of kvs k)) shape))
              else Inl issues)
      | _ \<Rightarrow> Inl [InvalidType []])"

text \<open>
  What the spec calls a conforming payload: an object that has every declared field
  with a value its validator accepts, and no field beyond the declared ones.
\<close>

fun conforms :: "(string \<Rightarrow> bool) \<Rightarrow> (string \<Rightarrow> bool) \<Rightarrow> zod_type \<Rightarrow> json \<Rightarrow> bool" where
  "conforms em ur ZString (JString s) = True"
| "conforms em ur ZNumber (JNumber n) = True"
| "conforms em ur ZStringEmail (JString s) = em s"
| "conforms em ur ZStringUrl (JString s) = ur s"
| "conforms em ur (ZEnum vs) (JString s) = (s \<in> set vs)"
| "conforms em ur _ _ = False"

definition field_conforms ::
  "(string \<Rightarrow> bool) \<Rightarrow> (string \<Rightarrow> bool) \<Rightarrow> (string \<times> json) list \<Rightarrow> string \<times> zod_type \<Rightarrow> bool" where
  "field_conforms em ur kvs kt =
     (case map_of kvs (fst kt) of None \<Rightarrow> False | Some x \<Rightarrow> conforms em ur (snd kt) x)"

fun valid_payload :: "(string \<Rightarrow> bool) \<Rightarrow> (string \<Rightarrow> bool) \<Rightarrow> zod_shape \<Rightarrow> json \<Rightarrow> bool" where
  "valid_payload em ur shape (JObject kvs) =
     (list_all (field_conforms em ur kvs) shape
      \<and> list_all (\<lambda>k. k \<in> set (map fst shape)) (map fst kvs))"
| "valid_payload em ur shape _ = False"


section \<open>Abbreviations used in the statements\<close>

text \<open>The request the login call of \<open>authenticatedApiHelper\<close> puts on the wire.\<close>

definition login_request :: request where
  "login_request =
     build_request POST login_url (Some [''Content-Type'' \<mapsto> ''application/json''])
       (Some loginData) None"

text \<open>
  A world is well formed when every instance its log mentions has been created: the
  instance counter is above each of them.
\<close>

fun event_ok :: "nat \<Rightarrow> event \<Rightarrow> bool" where
  "event_ok n (Constructed h) = (h < n)"
| "event_ok n (Sent h r) = (h < n)"
| "event_ok n _ = True"

definition wf_world :: "world \<Rightarrow> bool" where
  "wf_world w = list_all (event_ok (next_id w)) (log w)"

fun is_ConsumerFinished :: "event \<Rightarrow> bool" where
  "is_ConsumerFinished (ConsumerFinished out) = True"
| "is_ConsumerFinished _ = False"


text \<open>Whether an event is the construction of, or a request sent through, instance \<open>h\<close>.\<close>

fun mentions :: "nat \<Rightarrow> event \<Rightarrow> bool" where
  "mentions h (Constructed i) = (i = h)"
| "mentions h (Sent i r) = (i = h)"
| "mentions h _ = False"

text \<open>Whether a returned value is an object with an own property \<open>k\<close>.\<close>

fun has_field :: "response_value \<Rightarrow> string \<Rightarrow> bool" where
  "has_field (Payload (JObject kvs)) k = (k \<in> set (map fst kvs))"
| "has_field _ k = False"

text \<open>
  The world once \<open>authenticatedApiHelper\<close> has created its client and sent its login
  request: one more instance, and exactly these two events.
\<close>

definition after_login :: "world \<Rightarrow> world" where
  "after_login w =
     w\<lparr>next_id := Suc (next_id w),
       log := log w @ [Constructed (next_id w), Sent (next_id w) login_request]\<rparr>"


section \<open>Example inputs\<close>

definition empty_world :: world where
  "empty_world = \<lparr>next_id = 0, log = []\<rparr>"







text \<open>A login service whose reply to every request is the JSON value \<open>null\<close>.\<close>

definition null_net :: network where
  "null_net n req =
     Reply \<lparr> reply_status = 400, reply_text = ''null'', reply_json = Some JNull \<rparr>"

text \<open>A \<open>use\<close> that does nothing but hand back the value the fixture yields.\<close>

definition yield_value :: "'a \<Rightarrow> world \<Rightarrow> 'a \<times> world" where
  "yield_value v w = (v, w)"

text \<open>A login service that answers every request with the same pair of tokens.\<close>

definition token_payload :: json where
  "token_payload =
     JObject [(''accessToken'', JString ''tok-A''), (''refreshToken'', JString ''tok-R'')]"

definition same_token_net :: network where
  "same_token_net n req =
     Reply \<lparr> reply_status = 200, reply_text = ''(tokens)'', reply_json = Some token_payload \<rparr>"

text \<open>A network that is down, and a login service that rejects the credentials.\<close>

definition down_net :: network where
  "down_net n req = Fault Timeout"

definition rejected_payload :: json where
  "rejected_payload = JObject [(''message'', JString ''Invalid credentials'')]"

definition rejecting_net :: network where
  "rejecting_net n req =
     Reply \<lparr> reply_status = 400, reply_text = ''(message)'', reply_json = Some rejected_payload \<rparr>"

text \<open>
  Two test bodies: one asks for the current user and fails an assertion on the answer,
  one asks for the carts and passes.
\<close>

definition asserting_test :: "auth_ctx \<Rightarrow> test_body" where
  "asserting_test c =
     Call (helper c) GET ''https://dummyjson.com/auth/me'' None None None
       (\<lambda>r. Finish AssertionFailed)"

definition cart_test :: "nat \<Rightarrow> test_body" where
  "cart_test h =
     Call h GET ''https://dummyjson.com/carts'' None None None (\<lambda>r. Finish Passed)"


text \<open>The pair of tokens a finished provisioning run handed to its consumer.\<close>

fun token_pair :: "auth_ctx fixture_result \<Rightarrow> (json option \<times> json option) option" where
  "token_pair (Completed c) = Some (accessToken c, refreshToken c)"
| "token_pair (SetupFailed e) = None"


text \<open>Format tests for the examples: an \<open>@\<close> in an e-mail address, a \<open>:\<close> in a URL.\<close>

definition has_at :: "string \<Rightarrow> bool" where
  "has_at s = (CHR ''@'' \<in> set s)"

definition has_colon :: "string \<Rightarrow> bool" where
  "has_colon s = (CHR '':'' \<in> set s)"

definition emily :: "(string \<times> json) list" where
  "emily =
     [(''id'', JNumber 1),
      (''username'', JString ''emilys''),
      (''email'', JString ''emily.johnson@x.dummyjson.com''),
      (''firstName'', JString ''Emily''),
      (''lastName'', JString ''Johnson''),
      (''gender'', JString ''female''),
      (''image'', JString ''https://dummyjson.com/icon/emilys/128''),
      (''accessToken'', JString ''tok-A''),
      (''refreshToken'', JString ''tok-R'')]"


section \<open>Basic facts about the operations\<close>

lemma new_ApiHelper_eq:
  "new_ApiHelper w = (next_id w, w\<lparr>next_id := Suc (next_id w), log := log w @ [Constructed (next_id w)]\<rparr>)"
  by (simp add: new_ApiHelper_def emit_def)

lemma send_world:
  "snd (send net h v u callerHeaders b queryParams w) =
     w\<lparr>log := log w @ [Sent h (build_request v u callerHeaders b queryParams)]\<rparr>"
  by (simp add: send_def emit_def Let_def)


lemma login_request_eq:
  "login_request =
     \<lparr> http_method = POST, url = login_url,
       hdrs = [''Content-Type'' \<mapsto> ''application/json''], body = Some loginData \<rparr>"
  by (simp add: login_request_def build_request_def build_url_def effective_headers_def
      effective_body_def default_headers_def)

lemma run_test_log:
  "\<exists>evs. log (snd (run_test net t w)) = log w @ evs
         \<and> list_all (\<lambda>e. e \<noteq> Teardown \<and> \<not> is_ConsumerFinished e) evs"
proof (induction t arbitrary: w)
  case (Finish out)
  then show ?case by simp
next
  case (Call h v u callerHeaders b queryParams k)
  show ?case
  proof (cases "h < next_id w")
    case False
    then show ?thesis by simp
  next
    case True
    obtain r w' where s: "send net h v u callerHeaders b queryParams w = (r, w')"
      by (cases "send net h v u callerHeaders b queryParams w")
    have w': "log w' = log w @ [Sent h (build_request v u callerHeaders b queryParams)]"
      using send_world [of net h v u callerHeaders b queryParams w] s by simp
    from Call.IH [of "k r" w'] obtain evs where
      "log (snd (run_test net (k r) w')) = log w' @ evs"
      "list_all (\<lambda>e. e \<noteq> Teardown \<and> \<not> is_ConsumerFinished e) evs"
      by blast
    then show ?thesis using True s w' by auto
  qed
next
  case (NewHelper k)
  from NewHelper.IH [of "k (next_id w)" "snd (new_ApiHelper w)"] obtain evs where
    "log (snd (run_test net (k (next_id w)) (snd (new_ApiHelper w)))) = log (snd (new_ApiHelper w)) @ evs"
    "list_all (\<lambda>e. e \<noteq> Teardown \<and> \<not> is_ConsumerFinished e) evs"
    by blast
  then show ?case by (auto simp: new_ApiHelper_eq)
qed

lemma run_test_next_id: "next_id w \<le> next_id (snd (run_test net t w))"
proof (induction t arbitrary: w)
  case (Finish out)
  then show ?case by simp
next
  case (Call h v u callerHeaders b queryParams k)
  show ?case
  proof (cases "h < next_id w")
    case False
    then show ?thesis by simp
  next
    case True
    obtain r w' where s: "send net h v u callerHeaders b queryParams w = (r, w')"
      by (cases "send net h v u callerHeaders b queryParams w")
    have "next_id w' = next_id w"
      using send_world [of net h v u callerHeaders b queryParams w] s by simp
    with Call.IH [of "k r" w'] show ?thesis using True s by simp
  qed
next
  case (NewHelper k)
  from NewHelper.IH [of "k (next_id w)" "snd (new_ApiHelper w)"]
  show ?case by (simp add: new_ApiHelper_eq)
qed

lemma event_ok_mono: "event_ok n e \<Longrightarrow> n \<le> m \<Longrightarrow> event_ok m e"
  by (cases e) auto

lemma wf_world_step:
  "wf_world w \<Longrightarrow> next_id w \<le> n \<Longrightarrow> list_all (event_ok n) evs
     \<Longrightarrow> wf_world (w\<lparr>next_id := n, log := log w @ evs\<rparr>)"
  by (auto simp: wf_world_def list_all_iff intro: event_ok_mono)

lemma run_test_wf: "wf_world w \<Longrightarrow> wf_world (snd (run_test net t w))"
proof (induction t arbitrary: w)
  case (Finish out)
  then show ?case by simp
next
  case (Call h v u callerHeaders b queryParams k)
  show ?case
  proof (cases "h < next_id w")
    case False
    then show ?thesis using Call.prems by simp
  next
    case True
    obtain r w' where s: "send net h v u callerHeaders b queryParams w = (r, w')"
      by (cases "send net h v u callerHeaders b queryParams w")
    have w': "w' = w\<lparr>log := log w @ [Sent h (build_request v u callerHeaders b queryParams)]\<rparr>"
      using send_world [of net h v u callerHeaders b queryParams w] s by simp
    have "wf_world w'"
      using wf_world_step [OF Call.prems, of "next_id w" "[Sent h (build_request v u callerHeaders b queryParams)]"] True
      by (simp add: w')
    with Call.IH [of "k r" w'] show ?thesis using True s by simp
  qed
next
  case (NewHelper k)
  have "wf_world (snd (new_ApiHelper w))"
    using wf_world_step [OF NewHelper.prems, of "Suc (next_id w)" "[Constructed (next_id w)]"]
    by (simp add: new_ApiHelper_eq)
  with NewHelper.IH [of "k (next_id w)" "snd (new_ApiHelper w)"]
  show ?case by (simp add: new_ApiHelper_eq)
qed


lemma fresh_in_wf_world: "wf_world w \<Longrightarrow> list_all (\<lambda>e. \<not> mentions (next_id w) e) (log w)"
proof -
  have "event_ok n e \<Longrightarrow> \<not> mentions n e" for n e
    by (cases e) auto
  then show "wf_world w \<Longrightarrow> list_all (\<lambda>e. \<not> mentions (next_id w) e) (log w)"
    by (auto simp: wf_world_def list_all_iff)
qed

lemma get_prop_not_null:
  "rv \<noteq> Payload JNull \<Longrightarrow> \<exists>x. get_prop rv k = Inr x"
  by (cases "(rv, k)" rule: get_prop.cases) auto

lemma get_prop_lacking:
  "get_prop rv k = Inr x \<Longrightarrow> \<not> has_field rv k \<Longrightarrow> k \<noteq> ''status'' \<Longrightarrow> k \<noteq> ''text'' \<Longrightarrow> x = None"
  by (cases "(rv, k)" rule: get_prop.cases) (auto simp: map_of_eq_None_iff [symmetric])

lemma authenticatedApiHelper_setup:
  "authenticatedApiHelper net use w0 =
     (case net (calls_made w0) login_request of
        Fault f \<Rightarrow> (SetupFailed (TransportError f), after_login w0)
      | Reply r \<Rightarrow>
          (case get_prop (deliver r) ''accessToken'' of
             Inl e \<Rightarrow> (SetupFailed e, after_login w0)
           | Inr at \<Rightarrow>
               (case get_prop (deliver r) ''refreshToken'' of
                  Inl e \<Rightarrow> (SetupFailed e, after_login w0)
                | Inr rt \<Rightarrow>
                    (case use \<lparr> helper = next_id w0, accessToken = at, refreshToken = rt,
                                response = deliver r \<rparr> (after_login w0) of
                       (out, w3) \<Rightarrow> (Completed out, emit Teardown w3)))))"
proof -
  have cm: "calls_made (w0\<lparr>next_id := Suc (next_id w0), log := log w0 @ [Constructed (next_id w0)]\<rparr>) = calls_made w0"
    by (simp add: calls_made_def)
  show ?thesis
    unfolding authenticatedApiHelper_def new_ApiHelper_eq postRequest_def send_def
      login_request_def [symmetric] after_login_def
    by (simp add: cm emit_def Let_def split: transport_outcome.split sum.split)
qed

lemma authenticatedApiHelper_yields:
  assumes "net (calls_made w0) login_request = Reply r"
    and "get_prop (deliver r) ''accessToken'' = Inr at"
    and "get_prop (deliver r) ''refreshToken'' = Inr rt"
  shows "authenticatedApiHelper net use w0 =
     (case use \<lparr> helper = next_id w0, accessToken = at, refreshToken = rt,
                 response = deliver r \<rparr> (after_login w0) of
        (out, w3) \<Rightarrow> (Completed out, emit Teardown w3))"
  using assms by (simp add: authenticatedApiHelper_setup)

lemma runner_use_log:
  "\<exists>evs. log (snd (runner_use net test_fn v w))
           = log w @ evs @ [ConsumerFinished (fst (runner_use net test_fn v w))]
         \<and> list_all (\<lambda>e. e \<noteq> Teardown \<and> \<not> is_ConsumerFinished e) evs"
proof -
  obtain out w' where rt: "run_test net (test_fn v) w = (out, w')"
    by (cases "run_test net (test_fn v) w")
  from run_test_log [of net "test_fn v" w] rt obtain evs where
    "log w' = log w @ evs" "list_all (\<lambda>e. e \<noteq> Teardown \<and> \<not> is_ConsumerFinished e) evs"
    by auto
  then show ?thesis by (auto simp: runner_use_def rt emit_def)
qed

lemma runner_use_next_id: "next_id w \<le> next_id (snd (runner_use net test_fn v w))"
  using run_test_next_id [of w net "test_fn v"]
  by (cases "run_test net (test_fn v) w") (simp add: runner_use_def emit_def)

lemma runner_use_wf: "wf_world w \<Longrightarrow> wf_world (snd (runner_use net test_fn v w))"
  using run_test_wf [of w net "test_fn v"]
  by (cases "run_test net (test_fn v) w") (simp add: runner_use_def emit_def wf_world_def)


lemma calls_made_log_append: "log w' = log w @ evs \<Longrightarrow> calls_made w \<le> calls_made w'"
  by (simp add: calls_made_def)

lemma after_login_facts:
  "next_id (after_login w) = Suc (next_id w)"
  "calls_made (after_login w) = Suc (calls_made w)"
  "log (after_login w) = log w @ [Constructed (next_id w), Sent (next_id w) login_request]"
  by (simp_all add: after_login_def calls_made_def)

lemma after_login_wf: "wf_world w \<Longrightarrow> wf_world (after_login w)"
  using wf_world_step [of w "Suc (next_id w)" "[Constructed (next_id w), Sent (next_id w) login_request]"]
  by (simp add: after_login_def)

lemma emit_facts:
  "next_id (emit e w) = next_id w"
  "log (emit e w) = log w @ [e]"
  by (simp_all add: emit_def)

lemma emit_wf: "wf_world w \<Longrightarrow> e = Teardown \<or> is_ConsumerFinished e \<Longrightarrow> wf_world (emit e w)"
  by (cases e) (auto simp: wf_world_def emit_def)

lemma authenticatedApiHelper_progress:
  assumes "authenticatedApiHelper net (runner_use net test_fn) w0 = (res, w1)"
  shows "next_id w0 < next_id w1 \<and> calls_made w0 < calls_made w1
         \<and> (wf_world w0 \<longrightarrow> wf_world w1)"
proof -
  let ?A = "after_login w0"
  have base: "next_id w0 < next_id ?A \<and> calls_made w0 < calls_made ?A
         \<and> (wf_world w0 \<longrightarrow> wf_world ?A)"
    by (simp add: after_login_facts after_login_wf)
  have step: "next_id w0 < next_id (emit Teardown (snd (runner_use net test_fn c ?A)))
      \<and> calls_made w0 < calls_made (emit Teardown (snd (runner_use net test_fn c ?A)))
      \<and> (wf_world w0 \<longrightarrow> wf_world (emit Teardown (snd (runner_use net test_fn c ?A))))" for c
  proof -
    let ?U = "snd (runner_use net test_fn c ?A)"
    have n: "next_id ?A \<le> next_id ?U" by (rule runner_use_next_id)
    obtain evs where "log ?U = log ?A @ (evs @ [ConsumerFinished (fst (runner_use net test_fn c ?A))])"
      using runner_use_log [of net test_fn c ?A] by auto
    then have c: "calls_made ?A \<le> calls_made ?U" by (rule calls_made_log_append)
    have c': "calls_made (emit Teardown ?U) = calls_made ?U" by (simp add: calls_made_def emit_def)
    have w: "wf_world w0 \<longrightarrow> wf_world (emit Teardown ?U)"
      by (simp add: after_login_wf runner_use_wf emit_wf)
    from n c c' w base show ?thesis by (simp add: emit_facts)
  qed
  show ?thesis
  proof (cases "net (calls_made w0) login_request")
    case (Fault f)
    with assms base show ?thesis by (auto simp: authenticatedApiHelper_setup)
  next
    case (Reply r)
    show ?thesis
    proof (cases "get_prop (deliver r) ''accessToken''")
      case (Inl e)
      with assms base Reply show ?thesis by (auto simp: authenticatedApiHelper_setup)
    next
      case at: (Inr at)
      show ?thesis
      proof (cases "get_prop (deliver r) ''refreshToken''")
        case (Inl e)
        with assms base Reply at show ?thesis by (auto simp: authenticatedApiHelper_setup)
      next
        case rt: (Inr rt)
        let ?c = "\<lparr> helper = next_id w0, accessToken = at, refreshToken = rt, response = deliver r \<rparr>"
        have "w1 = emit Teardown (snd (runner_use net test_fn ?c ?A))"
          using assms Reply at rt
          by (cases "runner_use net test_fn ?c ?A") (simp add: authenticatedApiHelper_setup)
        with step [of ?c] show ?thesis by simp
      qed
    qed
  qed
qed

lemma apiHelper_eq:
  "apiHelper use w0 =
     (case use (next_id w0)
             (w0\<lparr>next_id := Suc (next_id w0), log := log w0 @ [Constructed (next_id w0)]\<rparr>) of
        (out, w2) \<Rightarrow> (Completed out, emit Teardown w2))"
  by (simp add: apiHelper_def new_ApiHelper_eq)

lemma apiHelper_progress:
  "next_id w0 < next_id (snd (apiHelper (runner_use net test_fn) w0))
   \<and> (wf_world w0 \<longrightarrow> wf_world (snd (apiHelper (runner_use net test_fn) w0)))"
proof -
  let ?C = "w0\<lparr>next_id := Suc (next_id w0), log := log w0 @ [Constructed (next_id w0)]\<rparr>"
  let ?U = "snd (runner_use net test_fn (next_id w0) ?C)"
  have e: "snd (apiHelper (runner_use net test_fn) w0) = emit Teardown ?U"
    by (cases "runner_use net test_fn (next_id w0) ?C") (simp add: apiHelper_eq)
  have n: "next_id ?C \<le> next_id ?U" by (rule runner_use_next_id)
  have "wf_world w0 \<Longrightarrow> wf_world ?C"
    using wf_world_step [of w0 "Suc (next_id w0)" "[Constructed (next_id w0)]"] by simp
  then have w: "wf_world w0 \<longrightarrow> wf_world (emit Teardown ?U)"
    by (simp add: runner_use_wf emit_wf)
  from n w show ?thesis by (simp add: e emit_facts)
qed


lemma parse_field_nil_iff:
  "parse_field em ur t k x = [] \<longleftrightarrow> (\<exists>j. x = Some j \<and> conforms em ur t j)"
  by (cases "(em, ur, t, k, x)" rule: parse_field.cases) auto

lemma parse_field_absent: "parse_field em ur t k None = [InvalidType [k]]"
  by (cases t) auto

lemma field_issues_nil_iff:
  "field_issues em ur shape kvs = [] \<longleftrightarrow> list_all (field_conforms em ur kvs) shape"
  by (induction shape)
     (auto simp: field_issues_def field_conforms_def parse_field_nil_iff split: option.splits)

lemma extra_keys_nil_iff:
  "extra_keys shape kvs = [] \<longleftrightarrow> list_all (\<lambda>k. k \<in> set (map fst shape)) (map fst kvs)"
  by (auto simp: extra_keys_def filter_empty_conv list_all_iff)

lemma field_issues_absent:
  "(k, t) \<in> set shape \<Longrightarrow> map_of kvs k = None \<Longrightarrow> InvalidType [k] \<in> set (field_issues em ur shape kvs)"
  by (force simp: field_issues_def parse_field_absent)

lemma parse_strict_ok_iff:
  "(\<exists>v'. parse_strict em ur shape v = Inr v') \<longleftrightarrow> valid_payload em ur shape v"
  by (cases v)
     (auto simp: parse_strict_def Let_def field_issues_nil_iff extra_keys_nil_iff)

lemma map_of_declared:
  "map_of (List.map_filter (\<lambda>(k, t). map_option (Pair k) (map_of kvs k)) shape) k
     = (if k \<in> set (map fst shape) then map_of kvs k else None)"
  by (induction shape) (auto split: option.splits)

lemma parse_strict_value:
  assumes "parse_strict em ur shape v = Inr v'"
  shows "\<exists>kvs kvs'. v = JObject kvs \<and> v' = JObject kvs' \<and> map_of kvs' = map_of kvs
           \<and> map fst kvs' = map fst shape"
proof (cases v)
  case (JObject kvs)
  let ?kvs' = "List.map_filter (\<lambda>(k, t). map_option (Pair k) (map_of kvs k)) shape"
  from assms JObject have fi: "field_issues em ur shape kvs = []"
    and ex: "extra_keys shape kvs = []" and v': "v' = JObject ?kvs'"
    by (auto simp: parse_strict_def Let_def split: if_splits)
  have "map_of ?kvs' k = map_of kvs k" for k
  proof (cases "k \<in> set (map fst shape)")
    case True
    then show ?thesis by (simp add: map_of_declared)
  next
    case False
    with ex have "k \<notin> set (map fst kvs)"
      by (auto simp: extra_keys_nil_iff list_all_iff)
    then have "map_of kvs k = None" by (simp add: map_of_eq_None_iff)
    with False show ?thesis by (simp add: map_of_declared)
  qed
  then have m: "map_of ?kvs' = map_of kvs" by (rule ext)
  from fi have "list_all (field_conforms em ur kvs) shape" by (simp add: field_issues_nil_iff)
  then have "map fst ?kvs' = map fst shape"
    by (induction shape) (auto simp: field_conforms_def split: option.splits)
  with JObject v' m show ?thesis by blast
qed (insert assms, auto simp: parse_strict_def)

lemma parse_strict_missing:
  assumes "(k, t) \<in> set shape" and "map_of kvs k = None"
  shows "\<exists>issues. parse_strict em ur shape (JObject kvs) = Inl issues \<and> InvalidType [k] \<in> set issues"
  using field_issues_absent [OF assms, of em ur]
  by (auto simp: parse_strict_def Let_def)

lemma parse_strict_extra:
  assumes "k \<in> set (map fst kvs)" and "k \<notin> set (map fst shape)"
  shows "\<exists>issues ks. parse_strict em ur shape (JObject kvs) = Inl issues
            \<and> UnrecognizedKeys ks \<in> set issues \<and> k \<in> set ks"
proof -
  have "k \<in> set (extra_keys shape kvs)" using assms by (auto simp: extra_keys_def)
  then have ne: "extra_keys shape kvs \<noteq> []" by auto
  show ?thesis
    using \<open>k \<in> set (extra_keys shape kvs)\<close> ne
    by (auto simp: parse_strict_def Let_def)
qed


section \<open>The claims\<close>

text \<open>
  Claim C6. For every verb, the URL of the request built from
  \<open>https://api.example.com/users\<close> and the query parameters \<open>{page: 1, limit: 10}\<close> is
  \<open>https://api.example.com/users?page=1&limit=10\<close>. In general a non-empty queryParams
  appends \<open>?\<close> and the entries \<open>key=encodeURIComponent(value)\<close>, joined by \<open>&\<close> in
  insertion order; an empty or absent queryParams leaves the URL as given.
\<close>

theorem query_params_appended_in_order:
  "url (build_request v ''https://api.example.com/users'' callerHeaders b
          (Some [(''page'', SNumber 1), (''limit'', SNumber 10)]))
     = ''https://api.example.com/users?page=1&limit=10''
   \<and> (qp \<noteq> [] \<longrightarrow>
        url (build_request v u callerHeaders b (Some qp))
          = u @ ''?'' @ join_with ''&''
              (map (\<lambda>(k, x). k @ ''='' @ encodeURIComponent (scalar_to_string x)) qp))
   \<and> url (build_request v u callerHeaders b (Some [])) = u
   \<and> url (build_request v u callerHeaders b None) = u"
proof -
  have ex: "url (build_request v ''https://api.example.com/users'' callerHeaders b
          (Some [(''page'', SNumber 1), (''limit'', SNumber 10)]))
     = ''https://api.example.com/users?page=1&limit=10''"
    by (simp add: build_request_def build_url_def query_string_def query_entry_def show_int_def
        show_nat.simps digit_char_def encodeURIComponent_def uri_unreserved_def)
  have entry: "query_entry = (\<lambda>(k, x). k @ ''='' @ encodeURIComponent (scalar_to_string x))"
    by (rule ext) (simp add: query_entry_def split_beta)
  have gen: "qp \<noteq> [] \<longrightarrow>
        url (build_request v u callerHeaders b (Some qp))
          = u @ ''?'' @ join_with ''&''
              (map (\<lambda>(k, x). k @ ''='' @ encodeURIComponent (scalar_to_string x)) qp)"
    by (simp add: build_request_def build_url_def query_string_def entry)
  have e: "url (build_request v u callerHeaders b (Some [])) = u"
    by (simp add: build_request_def build_url_def)
  have n: "url (build_request v u callerHeaders b None) = u"
    by (simp add: build_request_def build_url_def)
  from ex gen e n show ?thesis by blast
qed

theorem query_params_appended_in_order_witness:
  "[(''q'', SString ''a b''), (''ok'', SBoolean True)] \<noteq> []
   \<and> url (build_request DELETE ''http://h/p'' None None
            (Some [(''q'', SString ''a b''), (''ok'', SBoolean True)]))
       = ''http://h/p?q=a%20b&ok=true''"
  using query_params_appended_in_order
    [where v = DELETE and callerHeaders = None and b = None and u = "''http://h/p''"
       and qp = "[(''q'', SString ''a b''), (''ok'', SBoolean True)]"]
  by (simp add: encodeURIComponent_def uri_unreserved_def percent_encode_def hex_digit_def)

text \<open>
  Claim C7. A POST, PUT or PATCH call that carries a body and no \<open>Content-Type\<close> header
  of its own is sent with \<open>Content-Type: application/json\<close>; a \<open>Content-Type\<close> the
  caller supplies is the one sent, and so is every other header of the caller.
\<close>

theorem default_content_type_with_body:
  assumes "v = POST \<or> v = PUT \<or> v = PATCH"
  shows "hdrs (build_request v u None (Some j) qp) ''Content-Type'' = Some ''application/json''
    \<and> (h ''Content-Type'' = None \<longrightarrow>
         hdrs (build_request v u (Some h) (Some j) qp) ''Content-Type'' = Some ''application/json'')
    \<and> (h ''Content-Type'' = Some x \<longrightarrow>
         hdrs (build_request v u (Some h) (Some j) qp) ''Content-Type'' = Some x)
    \<and> (\<forall>k y. h k = Some y \<longrightarrow> hdrs (build_request v u (Some h) (Some j) qp) k = Some y)"
proof -
  have nb: "effective_body v (Some j) = Some j"
    using assms by (auto simp: effective_body_def)
  show ?thesis
    by (simp add: build_request_def nb effective_headers_def default_headers_def map_add_def)
qed

theorem default_content_type_with_body_witness:
  "(PATCH = POST \<or> PATCH = PUT \<or> PATCH = PATCH)
   \<and> [''Authorization'' \<mapsto> ''Bearer t''] ''Content-Type'' = None
   \<and> hdrs (build_request PATCH ''http://h/p'' (Some [''Authorization'' \<mapsto> ''Bearer t''])
             (Some JNull) None) ''Content-Type'' = Some ''application/json''
   \<and> [''Content-Type'' \<mapsto> ''text/plain''] ''Content-Type'' = Some ''text/plain''
   \<and> hdrs (build_request PATCH ''http://h/p'' (Some [''Content-Type'' \<mapsto> ''text/plain''])
             (Some JNull) None) ''Content-Type'' = Some ''text/plain''"
  using default_content_type_with_body
    [where v = PATCH and h = "[''Authorization'' \<mapsto> ''Bearer t'']" and u = "''http://h/p''"
       and j = JNull and qp = None]
    default_content_type_with_body
    [where v = PATCH and h = "[''Content-Type'' \<mapsto> ''text/plain'']" and u = "''http://h/p''"
       and j = JNull and qp = None and x = "''text/plain''"]
  by simp




text \<open>
  Claim C2. A run of \<open>authenticatedApiHelper\<close> creates one new client, sends through it
  one request, the POST to the login endpoint with the fixed credentials as body and
  \<open>Content-Type: application/json\<close> as header, and, the login having returned, calls
  \<open>use\<close> with a record of that client, the response's \<open>accessToken\<close> and
  \<open>refreshToken\<close> properties as read, and the response itself. In a well-formed
  world no earlier event mentions the new client.
\<close>

theorem provisioning_logs_in_once_and_yields:
  assumes "net (calls_made w) login_request = Reply r"
    and "get_prop (deliver r) ''accessToken'' = Inr at"
    and "get_prop (deliver r) ''refreshToken'' = Inr rt"
  shows "authenticatedApiHelper net use w =
       (case use \<lparr> helper = next_id w, accessToken = at, refreshToken = rt,
                   response = deliver r \<rparr>
               (w\<lparr>next_id := Suc (next_id w),
                   log := log w @ [Constructed (next_id w), Sent (next_id w) login_request]\<rparr>) of
          (out, w3) \<Rightarrow> (Completed out, emit Teardown w3))
     \<and> login_request =
         \<lparr> http_method = POST, url = ''https://dummyjson.com/auth/login'',
           hdrs = [''Content-Type'' \<mapsto> ''application/json''], body = Some loginData \<rparr>
     \<and> (\<forall>kvs. deliver r = Payload (JObject kvs) \<longrightarrow>
           at = map_of kvs ''accessToken'' \<and> rt = map_of kvs ''refreshToken'')
     \<and> (wf_world w \<longrightarrow> list_all (\<lambda>e. \<not> mentions (next_id w) e) (log w))"
proof -
  have a: "authenticatedApiHelper net use w =
       (case use \<lparr> helper = next_id w, accessToken = at, refreshToken = rt,
                   response = deliver r \<rparr>
               (w\<lparr>next_id := Suc (next_id w),
                   log := log w @ [Constructed (next_id w), Sent (next_id w) login_request]\<rparr>) of
          (out, w3) \<Rightarrow> (Completed out, emit Teardown w3))"
    using assms authenticatedApiHelper_yields [of net w r at rt use] by (simp add: after_login_def)
  have b: "login_request =
         \<lparr> http_method = POST, url = ''https://dummyjson.com/auth/login'',
           hdrs = [''Content-Type'' \<mapsto> ''application/json''], body = Some loginData \<rparr>"
    by (simp add: login_request_eq login_url_def)
  have c: "\<forall>kvs. deliver r = Payload (JObject kvs) \<longrightarrow>
           at = map_of kvs ''accessToken'' \<and> rt = map_of kvs ''refreshToken''"
    using assms(2,3) by auto
  have d: "wf_world w \<longrightarrow> list_all (\<lambda>e. \<not> mentions (next_id w) e) (log w)"
    by (simp add: fresh_in_wf_world)
  from a b c d show ?thesis by blast
qed

theorem provisioning_logs_in_once_and_yields_witness:
  "same_token_net (calls_made empty_world) login_request
     = Reply \<lparr> reply_status = 200, reply_text = ''(tokens)'', reply_json = Some token_payload \<rparr>
   \<and> get_prop (Payload token_payload) ''accessToken'' = Inr (Some (JString ''tok-A''))
   \<and> get_prop (Payload token_payload) ''refreshToken'' = Inr (Some (JString ''tok-R''))
   \<and> wf_world empty_world
   \<and> authenticatedApiHelper same_token_net yield_value empty_world =
       (Completed \<lparr> helper = 0, accessToken = Some (JString ''tok-A''),
                    refreshToken = Some (JString ''tok-R''), response = Payload token_payload \<rparr>,
        \<lparr> next_id = 1, log = [Constructed 0, Sent 0 login_request, Teardown] \<rparr>)"
  using provisioning_logs_in_once_and_yields
    [where net = same_token_net and w = empty_world and use = yield_value
       and r = "\<lparr> reply_status = 200, reply_text = ''(tokens)'', reply_json = Some token_payload \<rparr>"
       and at = "Some (JString ''tok-A'')" and rt = "Some (JString ''tok-R'')"]
  by (simp add: same_token_net_def deliver_def token_payload_def empty_world_def yield_value_def
      emit_def wf_world_def)

text \<open>
  Claim C4. When the login call throws, the run ends there as a failed setup carrying the
  transport's error: the result is the same whatever \<open>use\<close> is, so no test body runs;
  the log has gained the construction and one login request, no second attempt; and a
  failed setup is a different result from any completed run, a failed assertion included.
\<close>

theorem failed_login_skips_consumer:
  assumes "net (calls_made w) login_request = Fault f"
  shows "authenticatedApiHelper net use w =
       (SetupFailed (TransportError f),
        w\<lparr>next_id := Suc (next_id w),
          log := log w @ [Constructed (next_id w), Sent (next_id w) login_request]\<rparr>)
     \<and> (\<forall>out. fst (authenticatedApiHelper net use w) \<noteq> Completed out)"
  using assms by (simp add: authenticatedApiHelper_setup after_login_def)

theorem failed_login_skips_consumer_witness:
  "down_net (calls_made empty_world) login_request = Fault Timeout
   \<and> authenticatedApiHelper down_net (runner_use down_net asserting_test) empty_world =
       (SetupFailed (TransportError Timeout),
        \<lparr> next_id = 1, log = [Constructed 0, Sent 0 login_request] \<rparr>)
   \<and> fst (authenticatedApiHelper down_net (runner_use down_net asserting_test) empty_world)
       \<noteq> Completed AssertionFailed"
  using failed_login_skips_consumer
    [where net = down_net and w = empty_world and f = Timeout
       and use = "runner_use down_net asserting_test"]
  by (simp add: down_net_def empty_world_def)

text \<open>
  Claim C9, as amended. When the login has returned a value other than \<open>null\<close>,
  whatever the status of the reply, setup does not fail: \<open>use\<close> is called with a
  context in which \<open>accessToken\<close> is undefined if the value has no such field, and
  likewise \<open>refreshToken\<close>.
\<close>

theorem missing_tokens_still_yield:
  assumes "net (calls_made w) login_request = Reply r"
    and "deliver r \<noteq> Payload JNull"
  shows "\<exists>at rt.
      authenticatedApiHelper net use w =
        (case use \<lparr> helper = next_id w, accessToken = at, refreshToken = rt,
                    response = deliver r \<rparr>
                (w\<lparr>next_id := Suc (next_id w),
                  log := log w @ [Constructed (next_id w), Sent (next_id w) login_request]\<rparr>) of
           (out, w3) \<Rightarrow> (Completed out, emit Teardown w3))
      \<and> (\<not> has_field (deliver r) ''accessToken'' \<longrightarrow> at = None)
      \<and> (\<not> has_field (deliver r) ''refreshToken'' \<longrightarrow> rt = None)
      \<and> (\<forall>e. fst (authenticatedApiHelper net use w) \<noteq> SetupFailed e)"
proof -
  from assms(2) obtain at where at: "get_prop (deliver r) ''accessToken'' = Inr at"
    using get_prop_not_null by blast
  from assms(2) obtain rt where rt: "get_prop (deliver r) ''refreshToken'' = Inr rt"
    using get_prop_not_null by blast
  let ?c = "\<lparr> helper = next_id w, accessToken = at, refreshToken = rt, response = deliver r \<rparr>"
  have y: "authenticatedApiHelper net use w =
        (case use ?c (w\<lparr>next_id := Suc (next_id w),
                  log := log w @ [Constructed (next_id w), Sent (next_id w) login_request]\<rparr>) of
           (out, w3) \<Rightarrow> (Completed out, emit Teardown w3))"
    using assms(1) at rt authenticatedApiHelper_yields [of net w r at rt use]
    by (simp add: after_login_def)
  have a: "\<not> has_field (deliver r) ''accessToken'' \<longrightarrow> at = None"
    using get_prop_lacking [OF at] by simp
  have b: "\<not> has_field (deliver r) ''refreshToken'' \<longrightarrow> rt = None"
    using get_prop_lacking [OF rt] by simp
  have c: "\<forall>e. fst (authenticatedApiHelper net use w) \<noteq> SetupFailed e"
    by (simp add: y split: prod.split)
  from y a b c show ?thesis by blast
qed

theorem missing_tokens_still_yield_witness:
  "rejecting_net (calls_made empty_world) login_request = Reply \<lparr> reply_status = 400, reply_text = ''(message)'', reply_json = Some rejected_payload \<rparr>
   \<and> deliver \<lparr> reply_status = 400, reply_text = ''(message)'', reply_json = Some rejected_payload \<rparr> \<noteq> Payload JNull
   \<and> \<not> has_field (deliver \<lparr> reply_status = 400, reply_text = ''(message)'', reply_json = Some rejected_payload \<rparr>) ''accessToken''
   \<and> \<not> has_field (deliver \<lparr> reply_status = 400, reply_text = ''(message)'', reply_json = Some rejected_payload \<rparr>) ''refreshToken''
   \<and> authenticatedApiHelper rejecting_net yield_value empty_world =
       (Completed \<lparr> helper = 0, accessToken = None, refreshToken = None,
                    response = Payload rejected_payload \<rparr>,
        \<lparr> next_id = 1, log = [Constructed 0, Sent 0 login_request, Teardown] \<rparr>)"
  using missing_tokens_still_yield
    [where net = rejecting_net and w = empty_world and use = yield_value
       and r = "\<lparr> reply_status = 400, reply_text = ''(message)'', reply_json = Some rejected_payload \<rparr>"]
  by (simp add: authenticatedApiHelper_setup same_token_net_def down_net_def rejecting_net_def deliver_def token_payload_def rejected_payload_def after_login_def empty_world_def runner_use_def yield_value_def asserting_test_def cart_test_def send_def emit_def calls_made_def wf_world_def Let_def)

text \<open>
  Claim C9, as stated, fails: a login reply whose body is the JSON value \<open>null\<close> has
  neither field, and reading \<open>response.accessToken\<close> throws a \<open>TypeError\<close>. Setup
  fails, with the construction and the login request logged and no test body run.
\<close>

theorem null_login_reply_counterexample:
  "null_net (calls_made empty_world) login_request
     = Reply \<lparr> reply_status = 400, reply_text = ''null'', reply_json = Some JNull \<rparr>
   \<and> \<not> has_field (deliver \<lparr> reply_status = 400, reply_text = ''null'', reply_json = Some JNull \<rparr>)
          ''accessToken''
   \<and> \<not> has_field (deliver \<lparr> reply_status = 400, reply_text = ''null'', reply_json = Some JNull \<rparr>)
          ''refreshToken''
   \<and> authenticatedApiHelper null_net (runner_use null_net asserting_test) empty_world =
       (SetupFailed TypeError, \<lparr> next_id = 1, log = [Constructed 0, Sent 0 login_request] \<rparr>)"
  by (simp add: authenticatedApiHelper_setup null_net_def deliver_def after_login_def
      empty_world_def)

text \<open>
  Claim C10. A run of the \<open>apiHelper\<close> fixture creates one new client and calls \<open>use\<close>
  with it, having sent no request: the count of requests is what it was. In a
  well-formed world no earlier event mentions the new client, so no request was ever
  sent through it; and after a test has run on it, the next client created is a
  different one, in a world that is again well formed.
\<close>

theorem apiHelper_yields_fresh_client:
  "apiHelper use w =
     (case use (next_id w)
             (w\<lparr>next_id := Suc (next_id w), log := log w @ [Constructed (next_id w)]\<rparr>) of
        (out, w2) \<Rightarrow> (Completed out, emit Teardown w2))
   \<and> calls_made (w\<lparr>next_id := Suc (next_id w), log := log w @ [Constructed (next_id w)]\<rparr>)
       = calls_made w
   \<and> (wf_world w \<longrightarrow> list_all (\<lambda>e. \<not> mentions (next_id w) e) (log w))
   \<and> next_id w < next_id (snd (apiHelper (runner_use net test_fn) w))
   \<and> (wf_world w \<longrightarrow> wf_world (snd (apiHelper (runner_use net test_fn) w)))"
  using apiHelper_eq [of use w] apiHelper_progress [of w net test_fn]
  by (simp add: fresh_in_wf_world calls_made_def)

theorem apiHelper_yields_fresh_client_witness:
  "wf_world empty_world
   \<and> apiHelper (runner_use rejecting_net cart_test) empty_world =
       (Completed Passed,
        \<lparr> next_id = 1,
          log = [Constructed 0,
                 Sent 0 (build_request GET ''https://dummyjson.com/carts'' None None None),
                 ConsumerFinished Passed, Teardown] \<rparr>)
   \<and> fst (apiHelper yield_value
            (snd (apiHelper (runner_use rejecting_net cart_test) empty_world)))
       = Completed 1"
  using apiHelper_yields_fresh_client
    [where w = empty_world and net = rejecting_net and test_fn = cart_test
       and use = "runner_use rejecting_net cart_test"]
  by (simp add: apiHelper_eq authenticatedApiHelper_setup same_token_net_def down_net_def rejecting_net_def deliver_def token_payload_def rejected_payload_def after_login_def empty_world_def runner_use_def yield_value_def asserting_test_def cart_test_def send_def emit_def calls_made_def wf_world_def Let_def)

text \<open>
  Claim C5, as amended. Of two runs of \<open>authenticatedApiHelper\<close>, the second starting in
  the world the first has left, the second creates a client that is not the first's and
  sends a login request of its own, later than the first's; the context it yields holds
  that client and the tokens read from the reply to its own login. Nothing of the first
  run enters it. (Whether the two token pairs differ is the server's doing.)
\<close>

theorem each_invocation_logs_in_afresh:
  assumes "authenticatedApiHelper net (runner_use net test_fn) w = (res, w')"
    and "net (calls_made w') login_request = Reply r'"
    and "get_prop (deliver r') ''accessToken'' = Inr at'"
    and "get_prop (deliver r') ''refreshToken'' = Inr rt'"
  shows "authenticatedApiHelper net use w' =
       (case use \<lparr> helper = next_id w', accessToken = at', refreshToken = rt',
                   response = deliver r' \<rparr>
               (w'\<lparr>next_id := Suc (next_id w'),
                   log := log w' @ [Constructed (next_id w'), Sent (next_id w') login_request]\<rparr>) of
          (out, w3) \<Rightarrow> (Completed out, emit Teardown w3))
     \<and> next_id w < next_id w'
     \<and> calls_made w < calls_made w'"
  using assms(2,3,4) authenticatedApiHelper_yields [of net w' r' at' rt' use]
    authenticatedApiHelper_progress [OF assms(1)]
  by (simp add: after_login_def)

theorem each_invocation_logs_in_afresh_witness:
  "authenticatedApiHelper same_token_net (runner_use same_token_net asserting_test) empty_world =
       (Completed AssertionFailed,
        \<lparr> next_id = 1,
          log = [Constructed 0, Sent 0 login_request,
                 Sent 0 (build_request GET ''https://dummyjson.com/auth/me'' None None None),
                 ConsumerFinished AssertionFailed, Teardown] \<rparr>)
   \<and> authenticatedApiHelper same_token_net yield_value
        \<lparr> next_id = 1,
          log = [Constructed 0, Sent 0 login_request,
                 Sent 0 (build_request GET ''https://dummyjson.com/auth/me'' None None None),
                 ConsumerFinished AssertionFailed, Teardown] \<rparr> =
       (Completed \<lparr> helper = 1, accessToken = Some (JString ''tok-A''),
                    refreshToken = Some (JString ''tok-R''), response = Payload token_payload \<rparr>,
        \<lparr> next_id = 2,
          log = [Constructed 0, Sent 0 login_request,
                 Sent 0 (build_request GET ''https://dummyjson.com/auth/me'' None None None),
                 ConsumerFinished AssertionFailed, Teardown,
                 Constructed 1, Sent 1 login_request, Teardown] \<rparr>)"
  using each_invocation_logs_in_afresh
    [where net = same_token_net and w = empty_world and test_fn = asserting_test
       and use = yield_value and res = "Completed AssertionFailed"
       and w' = "\<lparr> next_id = 1,
          log = [Constructed 0, Sent 0 login_request,
                 Sent 0 (build_request GET ''https://dummyjson.com/auth/me'' None None None),
                 ConsumerFinished AssertionFailed, Teardown] \<rparr>"
       and r' = "\<lparr> reply_status = 200, reply_text = ''(tokens)'', reply_json = Some token_payload \<rparr>"
       and at' = "Some (JString ''tok-A'')" and rt' = "Some (JString ''tok-R'')"]
  by (simp add: authenticatedApiHelper_setup same_token_net_def down_net_def rejecting_net_def deliver_def token_payload_def rejected_payload_def after_login_def empty_world_def runner_use_def yield_value_def asserting_test_def cart_test_def send_def emit_def calls_made_def wf_world_def Let_def)

text \<open>
  Claim C5, as stated, fails: against a server that answers every login with the same
  tokens, two successive runs yield the same token pair.
\<close>

theorem same_tokens_twice_counterexample:
  "token_pair (fst (authenticatedApiHelper same_token_net yield_value empty_world))
     = Some (Some (JString ''tok-A''), Some (JString ''tok-R''))
   \<and> \<not> (token_pair (fst (authenticatedApiHelper same_token_net yield_value empty_world))
          \<noteq> token_pair (fst (authenticatedApiHelper same_token_net yield_value
                 (snd (authenticatedApiHelper same_token_net yield_value empty_world)))))"
  by (simp add: authenticatedApiHelper_setup same_token_net_def down_net_def rejecting_net_def deliver_def token_payload_def rejected_payload_def after_login_def empty_world_def runner_use_def yield_value_def asserting_test_def cart_test_def send_def emit_def calls_made_def wf_world_def Let_def)

text \<open>
  Claim C8. Parsing a payload against the strict login schema returns a value exactly
  when the payload is an object that has every declared field with a conforming value
  and no field beyond them, and the value returned has the payload's fields. A payload
  without \<open>email\<close>, or without any other declared field, is rejected with an issue
  whose path is that field; a payload with a key the schema does not declare is
  rejected with an issue that lists the key.
\<close>

theorem strict_login_schema:
  "((\<exists>v'. parse_strict em ur LOGIN_API_SCHEMA v = Inr v') \<longleftrightarrow>
       valid_payload em ur LOGIN_API_SCHEMA v)
   \<and> (parse_strict em ur LOGIN_API_SCHEMA v = Inr v' \<longrightarrow>
        (\<exists>kvs kvs'. v = JObject kvs \<and> v' = JObject kvs' \<and> map_of kvs' = map_of kvs))
   \<and> (map_of kvs ''email'' = None \<longrightarrow>
        (\<exists>issues. parse_strict em ur LOGIN_API_SCHEMA (JObject kvs) = Inl issues
            \<and> InvalidType [''email''] \<in> set issues))
   \<and> (k \<in> set (map fst LOGIN_API_SCHEMA) \<and> map_of kvs k = None \<longrightarrow>
        (\<exists>issues. parse_strict em ur LOGIN_API_SCHEMA (JObject kvs) = Inl issues
            \<and> InvalidType [k] \<in> set issues))
   \<and> (x \<in> set (map fst kvs) \<and> x \<notin> set (map fst LOGIN_API_SCHEMA) \<longrightarrow>
        (\<exists>issues ks. parse_strict em ur LOGIN_API_SCHEMA (JObject kvs) = Inl issues
            \<and> UnrecognizedKeys ks \<in> set issues \<and> x \<in> set ks))"
proof -
  have a: "(\<exists>v'. parse_strict em ur LOGIN_API_SCHEMA v = Inr v') \<longleftrightarrow>
       valid_payload em ur LOGIN_API_SCHEMA v"
    by (rule parse_strict_ok_iff)
  have b: "parse_strict em ur LOGIN_API_SCHEMA v = Inr v' \<longrightarrow>
        (\<exists>kvs kvs'. v = JObject kvs \<and> v' = JObject kvs' \<and> map_of kvs' = map_of kvs)"
    using parse_strict_value [of em ur LOGIN_API_SCHEMA v v'] by blast
  have d: "k \<in> set (map fst LOGIN_API_SCHEMA) \<and> map_of kvs k = None \<longrightarrow>
        (\<exists>issues. parse_strict em ur LOGIN_API_SCHEMA (JObject kvs) = Inl issues
            \<and> InvalidType [k] \<in> set issues)" for k
  proof
    assume h: "k \<in> set (map fst LOGIN_API_SCHEMA) \<and> map_of kvs k = None"
    then obtain t where "(k, t) \<in> set LOGIN_API_SCHEMA" by auto
    with h show "\<exists>issues. parse_strict em ur LOGIN_API_SCHEMA (JObject kvs) = Inl issues
            \<and> InvalidType [k] \<in> set issues"
      by (simp add: parse_strict_missing)
  qed
  have em: "''email'' \<in> set (map fst LOGIN_API_SCHEMA)"
    by (simp add: LOGIN_API_SCHEMA_def)
  have c: "map_of kvs ''email'' = None \<longrightarrow>
        (\<exists>issues. parse_strict em ur LOGIN_API_SCHEMA (JObject kvs) = Inl issues
            \<and> InvalidType [''email''] \<in> set issues)"
    using d [of "''email''"] em by blast
  have e: "x \<in> set (map fst kvs) \<and> x \<notin> set (map fst LOGIN_API_SCHEMA) \<longrightarrow>
        (\<exists>issues ks. parse_strict em ur LOGIN_API_SCHEMA (JObject kvs) = Inl issues
            \<and> UnrecognizedKeys ks \<in> set issues \<and> x \<in> set ks)"
    using parse_strict_extra [of x kvs LOGIN_API_SCHEMA em ur] by blast
  from a b c d e show ?thesis by blast
qed

theorem strict_login_schema_witness:
  "valid_payload has_at has_colon LOGIN_API_SCHEMA (JObject emily)
   \<and> parse_strict has_at has_colon LOGIN_API_SCHEMA (JObject emily) =
       Inr (JObject
         [(''accessToken'', JString ''tok-A''),
          (''refreshToken'', JString ''tok-R''),
          (''id'', JNumber 1),
          (''username'', JString ''emilys''),
          (''email'', JString ''emily.johnson@x.dummyjson.com''),
          (''firstName'', JString ''Emily''),
          (''lastName'', JString ''Johnson''),
          (''gender'', JString ''female''),
          (''image'', JString ''https://dummyjson.com/icon/emilys/128'')])
   \<and> map_of (filter (\<lambda>kv. fst kv \<noteq> ''email'') emily) ''email'' = None
   \<and> parse_strict has_at has_colon LOGIN_API_SCHEMA
        (JObject (filter (\<lambda>kv. fst kv \<noteq> ''email'') emily)) = Inl [InvalidType [''email'']]
   \<and> ''role'' \<in> set (map fst (emily @ [(''role'', JString ''admin'')]))
   \<and> ''role'' \<notin> set (map fst LOGIN_API_SCHEMA)
   \<and> parse_strict has_at has_colon LOGIN_API_SCHEMA
        (JObject (emily @ [(''role'', JString ''admin'')])) = Inl [UnrecognizedKeys [''role'']]"
  using strict_login_schema
    [where em = has_at and ur = has_colon and v = "JObject emily"
       and kvs = "filter (\<lambda>kv. fst kv \<noteq> ''email'') emily" and k = "''email''"
       and x = "''role''"]
  by (simp add: parse_strict_def field_issues_def extra_keys_def LOGIN_API_SCHEMA_def emily_def
      has_at_def has_colon_def field_conforms_def Let_def)

end
